theory Spec2Isabelle
  imports Complex_Main "HOL-Library.Log_Nat" "HOL-Library.AList"
begin

section \<open>ps2mqtt: host statistics to MQTT\<close>

text \<open>
  A shallow embedding of \<^verbatim>\<open>src/ps2mqtt/daemon.py\<close>. The module keeps one piece of
  state, the dictionary \<^verbatim>\<open>last\<close> of the rate computation; the broker client and
  the scheduler are modelled by the list of messages published and the list of events
  entered. What the program reads from its environment (the clock, the counters and
  sensors reported by psutil, the host name) is an explicit argument.
\<close>

subsection \<open>Numbers\<close>

text \<open>
  A Python \<^verbatim>\<open>float\<close> is modelled by the rational number it denotes. An arithmetic
  operation on floats returns the exact result rounded to the nearest number with 53
  significant bits, ties to even (\<open>fl\<close>); the exponent range of the binary64 format,
  infinities and NaN are not modelled, so the model describes the program on values in
  the normal range, which clock readings and byte counters are.
\<close>

definition round_half_even :: "rat \<Rightarrow> int" where
  "round_half_even x =
     (let f = \<lfloor>x\<rfloor>; d = x - of_int f
      in if d < 1 / 2 then f
         else if 1 / 2 < d then f + 1
         else if even f then f else f + 1)"

text \<open>\<open>ilog b q\<close> is the integer \<open>e\<close> with \<open>b ^ e \<le> q < b ^ (e + 1)\<close>, for \<open>q > 0\<close>.\<close>

definition ilog :: "nat \<Rightarrow> rat \<Rightarrow> int" where
  "ilog b q =
     (let (n, d) = quotient_of q;
          k = int (floorlog b (nat n)) - int (floorlog b (nat d))
      in if of_nat b powi k \<le> q then k else k - 1)"

text \<open>Rounding to \<open>p\<close> significant digits in base \<open>b\<close>, ties to even.\<close>

definition round_sig :: "nat \<Rightarrow> nat \<Rightarrow> rat \<Rightarrow> rat" where
  "round_sig b p q =
     (if q = 0 then 0
      else let e = ilog b \<bar>q\<bar> - (int p - 1)
           in sgn q * of_int (round_half_even (\<bar>q\<bar> / of_nat b powi e)) * of_nat b powi e)"

definition fl :: "rat \<Rightarrow> rat" where
  "fl q = round_sig 2 53 q"

definition fsub :: "rat \<Rightarrow> rat \<Rightarrow> rat" where
  "fsub a b = fl (a - b)"

definition fdiv :: "rat \<Rightarrow> rat \<Rightarrow> rat" where
  \<comment> \<open>true division by a non-zero constant\<close>
  "fdiv a b = fl (a / b)"

definition py_int :: "rat \<Rightarrow> int" where
  \<comment> \<open>\<^verbatim>\<open>int(x)\<close> on a float truncates towards zero\<close>
  "py_int x = (if 0 \<le> x then \<lfloor>x\<rfloor> else \<lceil>x\<rceil>)"

subsection \<open>Exceptions\<close>

datatype py_error =
  DivisionByZero | InvalidOperation | KeyError | IndexError | AttributeError | NameError

subsection \<open>Decimal arithmetic\<close>

text \<open>
  \<^verbatim>\<open>getcontext().prec = 2\<close>: the module sets the precision of the decimal context to
  two significant digits; the rounding mode stays the default, half-even, and the
  traps for division by zero and for invalid operations stay enabled.
  \<^verbatim>\<open>Decimal(x)\<close> of a float is exact, so a decimal operand is the rational it denotes.
\<close>

definition prec :: nat where
  "prec = 2"

definition decimal_div :: "rat \<Rightarrow> rat \<Rightarrow> py_error + rat" where
  "decimal_div a b =
     (if b = 0 then (if a = 0 then Inl InvalidOperation else Inl DivisionByZero)
      else Inr (round_sig 10 prec (a / b)))"

subsection \<open>The rate store\<close>

text \<open>
  \<^verbatim>\<open>last = {}\<close>: per key, the time and the value of the previous sample.
\<close>

type_synonym store = "string \<rightharpoonup> rat \<times> rat"

text \<open>
  \<^verbatim>\<open>
  def rate(key, value):
      rate = 0
      now = time.time()
      if key in last:
          ltime, lvalue = last[key]
          rate = Decimal(value - lvalue) / Decimal(now - ltime)
      last[key] = now, value
      return float(rate)
  \<close>
  The clock reading \<open>now\<close> is an argument. The function returns what the call
  returns or raises, and the store after the call: an exception of the division leaves
  the store as it was, since the assignment to \<^verbatim>\<open>last[key]\<close> comes after it.
\<close>

definition rate :: "store \<Rightarrow> rat \<Rightarrow> string \<Rightarrow> rat \<Rightarrow> (py_error + rat) \<times> store" where
  "rate lst now key v =
     (case lst key of
        None \<Rightarrow> (Inr 0, lst(key \<mapsto> (now, v)))
      | Some (ltime, lvalue) \<Rightarrow>
          (case decimal_div (fsub v lvalue) (fsub now ltime) of
             Inl err \<Rightarrow> (Inl err, lst)
           | Inr r \<Rightarrow> (Inr (fl r), lst(key \<mapsto> (now, v)))))"

subsection \<open>What the host reports\<close>

text \<open>
  The readings of psutil and of the platform module at one moment. A call of
  \<^verbatim>\<open>status\<close> (one tick) reads one such snapshot; \<open>clock\<close> is \<^verbatim>\<open>time.time()\<close>.
  \<open>sensors_temperatures\<close> is \<open>None\<close> where psutil has no such attribute, and otherwise
  the dictionary from sensor group to its readings, in the order psutil lists them.
\<close>

record shwtemp =
  label :: string
  current :: rat

record snetio =
  bytes_sent :: nat
  bytes_recv :: nat

record host =
  node :: string
  platform_str :: string
  system :: string
  clock :: rat
  cpu_percent :: rat
  virtual_memory_percent :: rat
  boot_time :: rat
  net_io_counters :: snetio
  sensors_temperatures :: "(string \<times> shwtemp list) list option"

subsection \<open>Slugs\<close>

text \<open>
  Modelled from the spec: \<^verbatim>\<open>slugify\<close>, which the module imports from the
  python-slugify package, is not part of the source file. The specification describes
  it as a transform to lower case and ASCII with normalised word separators; the
  package, called with its defaults as here, lower-cases the text, turns every run of
  characters other than letters and digits into one separator \<^verbatim>\<open>-\<close> and drops the
  separators at either end. So the slug is the text's maximal runs of letters and
  digits, lower-cased and joined by \<^verbatim>\<open>-\<close>. Before that the package transliterates
  characters outside ASCII, decodes character references (\<^verbatim>\<open>&amp;\<close>) and removes
  commas between digits; the model leaves these three steps out, so it describes
  the package on \<open>plain\<close> text: ASCII without \<^verbatim>\<open>&\<close> and without commas.
\<close>

definition code :: "char \<Rightarrow> nat" where
  "code c = of_char c"

definition is_upper :: "char \<Rightarrow> bool" where
  "is_upper c = (code CHR ''A'' \<le> code c \<and> code c \<le> code CHR ''Z'')"

definition is_lower :: "char \<Rightarrow> bool" where
  "is_lower c = (code CHR ''a'' \<le> code c \<and> code c \<le> code CHR ''z'')"

definition is_digit :: "char \<Rightarrow> bool" where
  "is_digit c = (code CHR ''0'' \<le> code c \<and> code c \<le> code CHR ''9'')"

definition lower :: "char \<Rightarrow> char" where
  "lower c = (if is_upper c then char_of (code c + 32) else c)"

definition allowed :: "char \<Rightarrow> bool" where
  \<comment> \<open>after lower-casing: what is not matched by \<^verbatim>\<open>[^-a-zA-Z0-9]\<close> and is no separator\<close>
  "allowed c = (is_lower c \<or> is_digit c)"

fun split_words :: "string \<Rightarrow> string \<Rightarrow> string list" where
  "split_words w [] = (if w = [] then [] else [w])"
| "split_words w (c # cs) =
     (if allowed c then split_words (w @ [c]) cs
      else (if w = [] then [] else [w]) @ split_words [] cs)"

fun join :: "string list \<Rightarrow> string" where
  "join [] = []"
| "join [w] = w"
| "join (w # ws) = w @ ''-'' @ join ws"

definition slugify :: "string \<Rightarrow> string" where
  "slugify text = join (split_words [] (map lower text))"

definition plain :: "string \<Rightarrow> bool" where
  "plain text = list_all (\<lambda>c. code c < 128 \<and> c \<noteq> CHR ''&'' \<and> c \<noteq> CHR '','') text"

subsection \<open>Constants of the module\<close>

definition version :: string where
  "version = ''0.0.3''"

definition MQTT_PS2MQTT_STATUS :: "string \<Rightarrow> string" where
  "MQTT_PS2MQTT_STATUS base_topic = base_topic @ ''/status''"

definition MQTT_STATE_TOPIC :: "string \<Rightarrow> string \<Rightarrow> string" where
  "MQTT_STATE_TOPIC base_topic p = base_topic @ ''/'' @ p"

definition MQTT_AVAILABLE :: string where
  "MQTT_AVAILABLE = ''online''"

definition MQTT_NOT_AVAILABLE :: string where
  "MQTT_NOT_AVAILABLE = ''offline''"

definition HA_DISCOVERY_PREFIX :: "string \<Rightarrow> string \<Rightarrow> string \<Rightarrow> string" where
  "HA_DISCOVERY_PREFIX ha_prefix slug p =
     ha_prefix @ ''/sensor/ps2mqtt_'' @ slug @ ''/'' @ p @ ''/config''"

definition OPTIONAL_ATTR :: "string list" where
  "OPTIONAL_ATTR = [''device_class'', ''icon'', ''unit_of_measurement'']"

subsection \<open>The metric registry\<close>

text \<open>
  One constructor for each \<^verbatim>\<open>lambda\<close> of \<^verbatim>\<open>load_properties\<close>. \<open>Temperature\<close> is the
  one written in the body of the loop over the sensor groups,
  \<^verbatim>\<open>lambda: psutil.sensors_temperatures()[temp_sensor][0].current\<close>:
  it has no parameter, and \<^verbatim>\<open>temp_sensor\<close> in its body is the variable of the
  enclosing call of \<^verbatim>\<open>load_properties\<close>, read when the lambda is called.
\<close>

datatype sampler =
  Cpu_percent | Virtual_memory | Uptime | Bytes_sent | Bytes_recv | Upload | Download
  | Temperature

text \<open>
  An entry of the registry is a dictionary with the key \<^verbatim>\<open>call\<close> and some of the
  keys of \<^verbatim>\<open>OPTIONAL_ATTR\<close>; \<open>attrs\<close> holds the latter.
\<close>

record metric =
  attrs :: "string \<rightharpoonup> string"
  call :: sampler

text \<open>
  The registry is a dictionary in insertion order: a list of pairs with distinct keys.
  Assigning to a key that is present keeps its place, a new key goes to the end, which
  is what \<open>AList.update\<close> does.
\<close>

type_synonym properties = "(string \<times> metric) list"

definition static_properties :: properties where
  "static_properties =
     [(''cpu_percent'',
         \<lparr>attrs = [''unit_of_measurement'' \<mapsto> ''%'', ''icon'' \<mapsto> ''mdi:chip''],
          call = Cpu_percent\<rparr>),
      (''virtual_memory'',
         \<lparr>attrs = [''unit_of_measurement'' \<mapsto> ''%'', ''icon'' \<mapsto> ''mdi:memory''],
          call = Virtual_memory\<rparr>),
      (''uptime'',
         \<lparr>attrs = [''device_class'' \<mapsto> ''timestamp''], call = Uptime\<rparr>),
      (''bytes_sent'',
         \<lparr>attrs = [''unit_of_measurement'' \<mapsto> ''MiB'', ''icon'' \<mapsto> ''mdi:upload-network''],
          call = Bytes_sent\<rparr>),
      (''bytes_recv'',
         \<lparr>attrs = [''unit_of_measurement'' \<mapsto> ''MiB'', ''icon'' \<mapsto> ''mdi:download-network''],
          call = Bytes_recv\<rparr>),
      (''upload'',
         \<lparr>attrs = [''unit_of_measurement'' \<mapsto> ''kbps'', ''icon'' \<mapsto> ''mdi:upload-network''],
          call = Upload\<rparr>),
      (''download'',
         \<lparr>attrs = [''unit_of_measurement'' \<mapsto> ''kbps'', ''icon'' \<mapsto> ''mdi:download-network''],
          call = Download\<rparr>)]"

definition temperature_metric :: metric where
  \<comment> \<open>the unit is the degree sign, code point \<open>0xB0\<close>, followed by C\<close>
  "temperature_metric =
     \<lparr>attrs = [''unit_of_measurement'' \<mapsto> [CHR 0xB0, CHR ''C''], ''device_class'' \<mapsto> ''temperature''],
      call = Temperature\<rparr>"

text \<open>
  \<^verbatim>\<open>
  if hasattr(psutil, "sensors_temperatures"):
      for temp_sensor in psutil.sensors_temperatures():
          properties[temp_sensor] = {..., "call": lambda: ...[temp_sensor][0].current}
  return properties
  \<close>
  The loop assigns the variable \<^verbatim>\<open>temp_sensor\<close> and the entry of that key. The
  state of the loop is the dictionary and the variable (\<open>None\<close> while unassigned);
  \<open>load_properties\<close> returns the dictionary together with the final value of the
  variable, which is what the lambdas of the entries see when they are called later.
\<close>

fun sensor_loop :: "string list \<Rightarrow> properties \<times> string option \<Rightarrow> properties \<times> string option" where
  "sensor_loop [] st = st"
| "sensor_loop (temp_sensor # rest) (props, var) =
     sensor_loop rest (AList.update temp_sensor temperature_metric props, Some temp_sensor)"

definition load_properties :: "host \<Rightarrow> properties \<times> string option" where
  "load_properties h =
     (case sensors_temperatures h of
        None \<Rightarrow> (static_properties, None)
      | Some temps \<Rightarrow> sensor_loop (map fst temps) (static_properties, None))"

subsection \<open>Sampling\<close>

text \<open>
  What a sampling function returns: a float, an integer or a string; the string of
  \<^verbatim>\<open>uptime\<close> is the ISO form of the boot time, kept as the time it renders.
\<close>

datatype pyvalue = PyFloat rat | PyInt int | PyIsoformat rat

definition sensor_current :: "host \<Rightarrow> string option \<Rightarrow> py_error + rat" where
  \<comment> \<open>\<^verbatim>\<open>psutil.sensors_temperatures()[temp_sensor][0].current\<close>\<close>
  "sensor_current h var =
     (case sensors_temperatures h of
        None \<Rightarrow> Inl AttributeError
      | Some temps \<Rightarrow>
          (case var of
             None \<Rightarrow> Inl NameError
           | Some temp_sensor \<Rightarrow>
               (case map_of temps temp_sensor of
                  None \<Rightarrow> Inl KeyError
                | Some [] \<Rightarrow> Inl IndexError
                | Some (r # _) \<Rightarrow> Inr (current r))))"

definition lift_rate :: "(py_error + rat) \<times> store \<Rightarrow> (py_error + pyvalue) \<times> store" where
  "lift_rate r = (case r of (Inl e, st) \<Rightarrow> (Inl e, st) | (Inr x, st) \<Rightarrow> (Inr (PyFloat x), st))"

text \<open>Calling the sampling function of an entry: \<^verbatim>\<open>properties[p]["call"]()\<close>.\<close>

fun call_sampler :: "sampler \<Rightarrow> string option \<Rightarrow> host \<Rightarrow> store \<Rightarrow> (py_error + pyvalue) \<times> store" where
  "call_sampler Cpu_percent var h lst = (Inr (PyFloat (cpu_percent h)), lst)"
| "call_sampler Virtual_memory var h lst = (Inr (PyFloat (virtual_memory_percent h)), lst)"
| "call_sampler Uptime var h lst = (Inr (PyIsoformat (boot_time h)), lst)"
| "call_sampler Bytes_sent var h lst =
     (Inr (PyInt (py_int (fdiv (of_nat (bytes_sent (net_io_counters h))) 1000000))), lst)"
| "call_sampler Bytes_recv var h lst =
     (Inr (PyInt (py_int (fdiv (of_nat (bytes_recv (net_io_counters h))) 1000000))), lst)"
| "call_sampler Upload var h lst =
     lift_rate (rate lst (clock h) ''upload'' (fdiv (of_nat (bytes_sent (net_io_counters h))) 1000))"
| "call_sampler Download var h lst =
     lift_rate (rate lst (clock h) ''download'' (fdiv (of_nat (bytes_recv (net_io_counters h))) 1000))"
| "call_sampler Temperature var h lst =
     (case sensor_current h var of Inl e \<Rightarrow> (Inl e, lst) | Inr t \<Rightarrow> (Inr (PyFloat t), lst))"

subsection \<open>Discovery records\<close>

datatype json = JNull | JString string | JObject "(string \<times> json) list"

text \<open>
  \<^verbatim>\<open>gen_ha_config\<close> builds the dictionary \<^verbatim>\<open>json_config\<close> and returns
  \<^verbatim>\<open>json.dumps(json_config)\<close>; the model returns the dictionary that is serialised.
  \<^verbatim>\<open>properties[sensor]\<close> raises \<^verbatim>\<open>KeyError\<close> for a sensor that is no key.
\<close>

fun copy_optional :: "string list \<Rightarrow> metric \<Rightarrow> (string \<times> json) list \<Rightarrow> (string \<times> json) list" where
  "copy_optional [] m json_config = json_config"
| "copy_optional (attr # rest) m json_config =
     (case attrs m attr of
        Some v \<Rightarrow> copy_optional rest m (AList.update attr (JString v) json_config)
      | None \<Rightarrow> copy_optional rest m json_config)"

definition mandatory_config :: "host \<Rightarrow> string \<Rightarrow> string \<Rightarrow> (string \<times> json) list" where
  "mandatory_config h sensor base_topic =
     [(''name'', JString sensor),
      (''unique_id'', JString (slugify (node h @ '' '' @ sensor))),
      (''object_id'', JString (slugify (node h @ '' '' @ sensor))),
      (''state_topic'', JString (MQTT_STATE_TOPIC base_topic sensor)),
      (''availability_topic'', JString (MQTT_PS2MQTT_STATUS base_topic)),
      (''payload_available'', JString MQTT_AVAILABLE),
      (''payload_not_available'', JString MQTT_NOT_AVAILABLE),
      (''device'', JObject
         [(''identifiers'', JString (node h @ ''_ps2mqtt'')),
          (''name'', JString (node h)),
          (''sw_version'', JString (platform_str h)),
          (''model'', JString (system h)),
          (''manufacturer'', JString (''ps2mqtt '' @ version))])]"

definition gen_ha_config :: "host \<Rightarrow> string \<Rightarrow> properties \<Rightarrow> string \<Rightarrow> py_error + json" where
  "gen_ha_config h sensor props base_topic =
     (case map_of props sensor of
        None \<Rightarrow> Inl KeyError
      | Some m \<Rightarrow> Inr (JObject (copy_optional OPTIONAL_ATTR m (mandatory_config h sensor base_topic))))"

subsection \<open>The broker client and the scheduler\<close>

datatype payload = Text string | Value pyvalue | Config json

record message =
  topic :: string
  payload :: payload
  retain :: bool

text \<open>An event entered into the scheduler: \<^verbatim>\<open>s.enter(period, 1, status, ...)\<close>.\<close>

record event =
  delay :: int
  priority :: nat

text \<open>
  The state of the running daemon: the messages handed to the client, oldest first,
  the queue of the scheduler, and the dictionary \<^verbatim>\<open>last\<close>.
\<close>

record world =
  published :: "message list"
  queue :: "event list"
  last_samples :: store

definition publish :: "string \<Rightarrow> payload \<Rightarrow> bool \<Rightarrow> world \<Rightarrow> world" where
  "publish t p r w = w\<lparr>published := published w @ [\<lparr>topic = t, payload = p, retain = r\<rparr>]\<rparr>"



text \<open>
  \<^verbatim>\<open>
  def on_connect(client, userdata, flags, result):
      properties, ha_prefix, base_topic = userdata
      client.publish(MQTT_PS2MQTT_STATUS.format(base_topic), MQTT_AVAILABLE, retain=True)
      for p in properties.keys():
          client.publish(
              HA_DISCOVERY_PREFIX.format(ha_prefix, slugify(platform.node()), p),
              gen_ha_config(p, properties, base_topic), retain=True)
  \<close>
  The callback does not look at \<^verbatim>\<open>result\<close>.
\<close>

fun connect_loop ::
  "string list \<Rightarrow> properties \<Rightarrow> host \<Rightarrow> string \<Rightarrow> string \<Rightarrow> world \<Rightarrow> (py_error + unit) \<times> world" where
  "connect_loop [] props h ha_prefix base_topic w = (Inr (), w)"
| "connect_loop (p # ps) props h ha_prefix base_topic w =
     (case gen_ha_config h p props base_topic of
        Inl e \<Rightarrow> (Inl e, w)
      | Inr cfg \<Rightarrow>
          connect_loop ps props h ha_prefix base_topic
            (publish (HA_DISCOVERY_PREFIX ha_prefix (slugify (node h)) p) (Config cfg) True w))"

definition on_connect ::
  "host \<Rightarrow> properties \<times> string \<times> string \<Rightarrow> world \<Rightarrow> (py_error + unit) \<times> world" where
  "on_connect h userdata w =
     (case userdata of (props, ha_prefix, base_topic) \<Rightarrow>
        connect_loop (map fst props) props h ha_prefix base_topic
          (publish (MQTT_PS2MQTT_STATUS base_topic) (Text MQTT_AVAILABLE) True w))"

subsection \<open>Notions used in the statements\<close>

text \<open>The keys every discovery record has, in the order of the dictionary literal.\<close>

definition mandatory_keys :: "string list" where
  "mandatory_keys = [''name'', ''unique_id'', ''object_id'', ''state_topic'',
     ''availability_topic'', ''payload_available'', ''payload_not_available'', ''device'']"

text \<open>The optional attributes a metric has, each with its value, in the order of \<open>OPTIONAL_ATTR\<close>.\<close>

definition optional_fields :: "metric \<Rightarrow> (string \<times> json) list" where
  "optional_fields m =
     List.map_filter (\<lambda>a. map_option (\<lambda>v. (a, JString v)) (attrs m a)) OPTIONAL_ATTR"

subsection \<open>A host for the examples\<close>

definition example_host :: host where
  "example_host =
     \<lparr>node = ''pc'', platform_str = ''Linux-6.1-x86_64'', system = ''Linux'', clock = 100,
      cpu_percent = 5, virtual_memory_percent = 40, boot_time = 10,
      net_io_counters = \<lparr>bytes_sent = 7000000, bytes_recv = 9000000\<rparr>,
      sensors_temperatures =
        Some [(''acpitz'', [\<lparr>label = '''', current = 30\<rparr>]),
              (''coretemp'', [\<lparr>label = ''Core 0'', current = 50\<rparr>])]\<rparr>"

definition example_world :: world where
  "example_world =
     \<lparr>published = [], queue = [], last_samples = Map.empty(''upload'' \<mapsto> (100, 5))\<rparr>"

text \<open>
  The messages of the connect callback, in the words of the specification: the
  availability message, and the discovery record of a registry entry.
\<close>

definition online_message :: "string \<Rightarrow> message" where
  "online_message base_topic =
     \<lparr>topic = base_topic @ ''/status'', payload = Text ''online'', retain = True\<rparr>"

definition discovery_message :: "host \<Rightarrow> string \<Rightarrow> string \<Rightarrow> string \<times> metric \<Rightarrow> message" where
  "discovery_message h ha_prefix base_topic e =
     \<lparr>topic = ha_prefix @ ''/sensor/ps2mqtt_'' @ slugify (node h) @ ''/'' @ fst e @ ''/config'',
      payload = Config (JObject (mandatory_config h (fst e) base_topic @ optional_fields (snd e))),
      retain = True\<rparr>"



section \<open>Rounding\<close>

lemma floorlog_powi_bounds:
  assumes "1 < b" "0 < n"
  shows "rat_of_nat b powi (int (floorlog b n) - 1) \<le> of_nat n"
    and "rat_of_nat n < of_nat b powi int (floorlog b n)"
proof -
  from floorlog_bounds [OF assms(2) assms(1)]
  have lo: "b ^ (floorlog b n - 1) \<le> n" and hi: "n < b ^ floorlog b n" by simp_all
  have pos: "0 < floorlog b n"
    using assms by (simp add: floorlog_def)
  then have e: "int (floorlog b n) - 1 = int (floorlog b n - 1)" by simp
  have "rat_of_nat b powi (int (floorlog b n) - 1) = rat_of_nat b powi int (floorlog b n - 1)"
    by (simp only: e)
  also have "\<dots> = of_nat b ^ (floorlog b n - 1)"
    by (rule power_int_of_nat)
  also have "\<dots> = of_nat (b ^ (floorlog b n - 1))"
    by (simp only: of_nat_power)
  also have "\<dots> \<le> of_nat n"
    using lo by (simp only: of_nat_le_iff)
  finally show "rat_of_nat b powi (int (floorlog b n) - 1) \<le> of_nat n" .
  have "rat_of_nat n < of_nat (b ^ floorlog b n)"
    using hi by (simp only: of_nat_less_iff)
  also have "\<dots> = of_nat b ^ floorlog b n"
    by (simp only: of_nat_power)
  also have "\<dots> = of_nat b powi int (floorlog b n)"
    by (simp only: power_int_of_nat)
  finally show "rat_of_nat n < of_nat b powi int (floorlog b n)" .
qed

lemma ilog_bounds:
  assumes b: "1 < b" and q: "0 < q"
  shows "of_nat b powi ilog b q \<le> q \<and> q < of_nat b powi (ilog b q + 1)"
proof -
  obtain n d where nd: "quotient_of q = (n, d)" by (cases "quotient_of q")
  then have d: "0 < d" by (rule quotient_of_denom_pos)
  have qeq: "q = of_int n / of_int d"
    using nd quotient_of_div by blast
  have n: "0 < n"
    using q d qeq by (simp add: zero_less_divide_iff)
  define B :: rat where "B = of_nat b"
  have B: "1 < B" "0 < B" "B \<noteq> 0" using b by (simp_all add: B_def)
  define a c where "a = int (floorlog b (nat n))" and "c = int (floorlog b (nat d))"
  have na: "B powi (a - 1) \<le> of_int n" "of_int n < B powi a"
    using floorlog_powi_bounds [OF b, of "nat n"] n by (simp_all add: a_def B_def)
  have dc: "B powi (c - 1) \<le> of_int d" "of_int d < B powi c"
    using floorlog_powi_bounds [OF b, of "nat d"] d by (simp_all add: c_def B_def)
  have dpos: "0 < rat_of_int d" using d by simp
  have upper: "q < B powi (a - c + 1)"
  proof -
    have "of_int n < B powi a" by (rule na)
    also have "B powi a = B powi (a - c + 1) * B powi (c - 1)"
      using B by (simp flip: power_int_add)
    also have "\<dots> \<le> B powi (a - c + 1) * of_int d"
      using dc(1) B by (intro mult_left_mono) (simp_all add: zero_le_power_int)
    finally show ?thesis using dpos by (simp add: qeq pos_divide_less_eq)
  qed
  have lower: "B powi (a - c - 1) < q"
  proof -
    have "B powi (a - c - 1) * of_int d < B powi (a - c - 1) * B powi c"
      using dc(2) B by (intro mult_strict_left_mono) (simp_all add: zero_less_power_int)
    also have "\<dots> = B powi (a - 1)"
      using B by (simp flip: power_int_add)
    also have "\<dots> \<le> of_int n" by (rule na)
    finally show ?thesis using dpos by (simp add: qeq pos_less_divide_eq)
  qed
  have il: "ilog b q = (if B powi (a - c) \<le> q then a - c else a - c - 1)"
    by (simp add: ilog_def nd a_def c_def B_def)
  show ?thesis
  proof (cases "B powi (a - c) \<le> q")
    case True
    then have "ilog b q = a - c" by (simp only: il if_True)
    then show ?thesis using True upper by (simp only: B_def [symmetric])
  next
    case False
    then have e: "ilog b q = a - c - 1" by (simp only: il if_False)
    have "q < B powi (a - c)" using False by simp
    then show ?thesis using lower by (simp only: B_def [symmetric] e) simp
  qed
qed

lemma ilog_eqI:
  assumes b: "1 < b" and lo: "of_nat b powi e \<le> q" and hi: "q < of_nat b powi (e + 1)"
  shows "ilog b q = e"
proof -
  define B :: rat where "B = of_nat b"
  have B: "1 < B" using b by (simp add: B_def)
  have "0 < B powi e" using B by (simp add: zero_less_power_int)
  then have q: "0 < q" using lo by (simp add: B_def)
  from ilog_bounds [OF b q]
  have l2: "B powi ilog b q \<le> q" and h2: "q < B powi (ilog b q + 1)"
    by (simp_all add: B_def)
  have "B powi e < B powi (ilog b q + 1)"
    using lo h2 by (simp add: B_def)
  have "e < ilog b q + 1"
  proof (rule ccontr)
    assume "\<not> e < ilog b q + 1"
    then have "ilog b q + 1 \<le> e" by simp
    then have "B powi (ilog b q + 1) \<le> B powi e"
      using B by (intro power_int_increasing) simp_all
    with \<open>B powi e < B powi (ilog b q + 1)\<close> show False by simp
  qed
  have "B powi ilog b q < B powi (e + 1)"
    using l2 hi by (simp add: B_def)
  have "ilog b q < e + 1"
  proof (rule ccontr)
    assume "\<not> ilog b q < e + 1"
    then have "e + 1 \<le> ilog b q" by simp
    then have "B powi (e + 1) \<le> B powi ilog b q"
      using B by (intro power_int_increasing) simp_all
    with \<open>B powi ilog b q < B powi (e + 1)\<close> show False by simp
  qed
  from \<open>e < ilog b q + 1\<close> \<open>ilog b q < e + 1\<close> show ?thesis by simp
qed

lemma round_half_even_error: "\<bar>of_int (round_half_even x) - x\<bar> \<le> 1 / 2"
proof -
  have "of_int \<lfloor>x\<rfloor> \<le> x" "x < of_int \<lfloor>x\<rfloor> + 1"
    by linarith+
  then show ?thesis
    unfolding round_half_even_def Let_def by (simp add: abs_le_iff)
qed

lemma round_half_even_of_int: "round_half_even (of_int n) = n"
  by (simp add: round_half_even_def)

lemma round_half_even_ge:
  assumes "of_int n \<le> x"
  shows "n \<le> round_half_even x"
proof -
  have "n \<le> \<lfloor>x\<rfloor>" using assms by (simp add: le_floor_iff)
  then show ?thesis
    by (auto simp: round_half_even_def Let_def)
qed



lemma ilog_less:
  assumes b: "1 < b" and q: "0 < q" and hi: "q < of_nat b powi k"
  shows "ilog b q < k"
proof (rule ccontr)
  assume "\<not> ilog b q < k"
  then have "k \<le> ilog b q" by simp
  then have "rat_of_nat b powi k \<le> of_nat b powi ilog b q"
    using b by (intro power_int_increasing) simp_all
  also have "\<dots> \<le> q" using ilog_bounds [OF b q] by simp
  finally show False using hi by simp
qed

lemma round_sig_scaled:
  assumes b: "1 < b" and q: "q \<noteq> 0"
  shows "of_nat b powi (int p - 1) \<le> \<bar>q\<bar> / of_nat b powi (ilog b \<bar>q\<bar> - (int p - 1))"
    and "\<bar>q\<bar> / of_nat b powi (ilog b \<bar>q\<bar> - (int p - 1)) < of_nat b powi int p"
proof -
  define e where "e = ilog b \<bar>q\<bar> - (int p - 1)"
  define B :: rat where "B = of_nat b"
  have B: "1 < B" "B \<noteq> 0" using b by (simp_all add: B_def)
  have Be: "0 < B powi e" using B by (simp add: zero_less_power_int)
  have aq: "0 < \<bar>q\<bar>" using q by simp
  from ilog_bounds [OF b aq]
  have lo: "B powi ilog b \<bar>q\<bar> \<le> \<bar>q\<bar>" and hi: "\<bar>q\<bar> < B powi (ilog b \<bar>q\<bar> + 1)"
    by (simp_all add: B_def)
  have "B powi (int p - 1) * B powi e = B powi (int p - 1 + e)"
    by (rule power_int_add [symmetric], rule disjI1, rule B(2))
  also have "int p - 1 + e = ilog b \<bar>q\<bar>" by (simp add: e_def)
  finally have "B powi (int p - 1) * B powi e = B powi ilog b \<bar>q\<bar>" .
  then have "B powi (int p - 1) * B powi e \<le> \<bar>q\<bar>" using lo by simp
  then have "B powi (int p - 1) \<le> \<bar>q\<bar> / B powi e"
    using Be by (simp add: pos_le_divide_eq)
  then show "of_nat b powi (int p - 1) \<le> \<bar>q\<bar> / of_nat b powi (ilog b \<bar>q\<bar> - (int p - 1))"
    by (simp only: B_def e_def)
  have "B powi int p * B powi e = B powi (int p + e)"
    by (rule power_int_add [symmetric], rule disjI1, rule B(2))
  also have "int p + e = ilog b \<bar>q\<bar> + 1" by (simp add: e_def)
  finally have "B powi int p * B powi e = B powi (ilog b \<bar>q\<bar> + 1)" .
  then have "\<bar>q\<bar> < B powi int p * B powi e" using hi by simp
  then have "\<bar>q\<bar> / B powi e < B powi int p"
    using Be by (simp add: pos_divide_less_eq)
  then show "\<bar>q\<bar> / of_nat b powi (ilog b \<bar>q\<bar> - (int p - 1)) < of_nat b powi int p"
    by (simp only: B_def e_def)
qed

lemma round_sig_error:
  assumes b: "1 < b" and q: "q \<noteq> 0"
  shows "\<bar>round_sig b p q - q\<bar> \<le> of_nat b powi (ilog b \<bar>q\<bar> - (int p - 1)) / 2"
proof -
  define e where "e = ilog b \<bar>q\<bar> - (int p - 1)"
  define B :: rat where "B = of_nat b powi e"
  have B: "0 < B" using b by (simp add: B_def zero_less_power_int)
  define x where "x = \<bar>q\<bar> / B"
  define c where "c = rat_of_int (round_half_even x)"
  have rs: "round_sig b p q = sgn q * c * B"
    using q by (simp add: round_sig_def Let_def e_def B_def x_def c_def)
  have "x * B = \<bar>q\<bar>" using B by (simp add: x_def)
  then have "q = sgn q * (x * B)"
    by (simp only: mult_sgn_abs)
  then have "round_sig b p q - q = sgn q * ((c - x) * B)"
    by (simp add: rs algebra_simps)
  then have "\<bar>round_sig b p q - q\<bar> = \<bar>c - x\<bar> * B"
    using q B by (simp add: abs_mult)
  also have "\<dots> \<le> (1 / 2) * B"
    using round_half_even_error [of x] B
    by (intro mult_right_mono) (simp_all add: c_def)
  finally show ?thesis by (simp add: B_def e_def)
qed

lemma round_sig_exact:
  assumes q: "q \<noteq> 0"
    and int: "\<bar>q\<bar> / of_nat b powi (ilog b \<bar>q\<bar> - (int p - 1)) = of_int m"
    and b: "1 < b"
  shows "round_sig b p q = q"
proof -
  define B :: rat where "B = of_nat b powi (ilog b \<bar>q\<bar> - (int p - 1))"
  have B: "0 < B" using b by (simp add: B_def zero_less_power_int)
  have int': "\<bar>q\<bar> / B = of_int m"
    using int unfolding B_def .
  then have m: "\<bar>q\<bar> = of_int m * B"
    using B by (simp add: field_simps)
  have "round_sig b p q = sgn q * of_int (round_half_even (\<bar>q\<bar> / B)) * B"
    using q by (simp add: round_sig_def Let_def B_def)
  also have "\<dots> = sgn q * of_int m * B"
    by (simp only: int' round_half_even_of_int)
  also have "\<dots> = sgn q * \<bar>q\<bar>"
    by (simp add: m)
  also have "\<dots> = q" by (rule mult_sgn_abs)
  finally show ?thesis .
qed

lemma round_sig_nonzero:
  assumes b: "1 < b" and p: "0 < p" and q: "q \<noteq> 0"
  shows "round_sig b p q \<noteq> 0"
proof -
  define e where "e = ilog b \<bar>q\<bar> - (int p - 1)"
  define x where "x = \<bar>q\<bar> / of_nat b powi e"
  have "rat_of_nat b powi (int p - 1) \<le> x"
    using round_sig_scaled(1) [OF b q, of p] by (simp add: x_def e_def)
  moreover have "(1::rat) \<le> of_nat b powi (int p - 1)"
    using b p by (intro one_le_power_int) simp_all
  ultimately have "rat_of_int 1 \<le> x" by simp
  then have "1 \<le> round_half_even x" by (rule round_half_even_ge)
  then have "rat_of_int (round_half_even x) \<noteq> 0" by simp
  moreover have "rat_of_nat b powi e \<noteq> 0" using b by simp
  moreover have "sgn q \<noteq> 0" using q by (simp add: sgn_if)
  ultimately show ?thesis
    using q by (simp add: round_sig_def Let_def e_def [symmetric] x_def [symmetric])
qed

section \<open>Properties of the rate store\<close>

lemma round_sig_zero_iff: "round_sig b p 0 = 0"
  by (simp add: round_sig_def)

text \<open>
  C6: for a key not yet in the rate store, the first call \<^verbatim>\<open>rate(key, value)\<close>
  returns 0, does not raise, and records \<open>(now, value)\<close> as the state of the key.
\<close>

theorem rate_first_call:
  assumes "lst key = None"
  shows "rate lst now key v = (Inr 0, lst(key \<mapsto> (now, v)))"
  using assms by (simp add: rate_def)

theorem rate_first_call_witness:
  "(Map.empty :: store) ''upload'' = None \<and>
   rate Map.empty 1000 ''upload'' 42 = (Inr 0, Map.empty(''upload'' \<mapsto> (1000, 42)))"
  using rate_first_call [of Map.empty "''upload''" 1000 42] by simp

text \<open>
  C10: a call \<^verbatim>\<open>rate(key, value)\<close> leaves the stored entry of every other key as it
  was; it changes at most the entry of its own key.
\<close>

theorem rate_frame:
  assumes "k \<noteq> key"
  shows "snd (rate lst now key v) k = lst k"
  using assms by (simp add: rate_def split: option.splits sum.splits prod.splits)

theorem rate_frame_witness:
  "''download'' \<noteq> ''upload'' \<and>
   snd (rate (Map.empty(''download'' \<mapsto> (1, 2))) 5 ''upload'' 7) ''download'' = Some (1, 2)"
  using rate_frame [of "''download''" "''upload''" "Map.empty(''download'' \<mapsto> (1, 2))" 5 7]
  by simp

lemma fl_eq_0_iff: "fl q = 0 \<longleftrightarrow> q = 0"
  using round_sig_nonzero [of 2 53 q] by (auto simp: fl_def round_sig_def)

lemma fsub_eq_0_iff: "fsub a b = 0 \<longleftrightarrow> a = b"
  by (simp add: fsub_def fl_eq_0_iff)


text \<open>
  C1, as the code has it: for a key present in the rate store, a call
  \<^verbatim>\<open>rate(key, value)\<close> whose clock reading equals the stored time raises the
  exception of the decimal division (\<^verbatim>\<open>InvalidOperation\<close> when the value equals the
  stored one as well, \<^verbatim>\<open>DivisionByZero\<close> otherwise) and leaves the store as it was.
  There is no fallback value.
\<close>

theorem rate_zero_elapsed:
  assumes "lst key = Some (now, lvalue)"
  shows "rate lst now key v =
    (Inl (if v = lvalue then InvalidOperation else DivisionByZero), lst)"
  using assms by (simp add: rate_def decimal_div_def fsub_eq_0_iff)

theorem rate_zero_elapsed_witness:
  "(Map.empty(''upload'' \<mapsto> (100, 5)) :: store) ''upload'' = Some (100, 5) \<and>
   rate (Map.empty(''upload'' \<mapsto> (100, 5))) 100 ''upload'' 5 =
     (Inl InvalidOperation, Map.empty(''upload'' \<mapsto> (100, 5)))"
  using rate_zero_elapsed [of "Map.empty(''upload'' \<mapsto> (100, 5))" "''upload''" 100 5 5]
  by simp

text \<open>
  C1 as the specification states it fails: the second of two calls made at the
  same clock reading raises.
\<close>

theorem rate_zero_elapsed_counterexample:
  "fst (rate (Map.empty(''upload'' \<mapsto> (100, 5))) 100 ''upload'' 7) = Inl DivisionByZero"
  by (simp add: rate_def decimal_div_def fsub_eq_0_iff)

section \<open>Discovery records\<close>

lemma mandatory_config_keys: "map fst (mandatory_config h sensor base_topic) = mandatory_keys"
  by (simp add: mandatory_config_def mandatory_keys_def)

lemma copy_optional_eq:
  "copy_optional OPTIONAL_ATTR m (mandatory_config h sensor base_topic) =
     mandatory_config h sensor base_topic @ optional_fields m"
  by (cases "attrs m ''device_class''"; cases "attrs m ''icon''";
      cases "attrs m ''unit_of_measurement''")
    (simp_all add: OPTIONAL_ATTR_def mandatory_config_def optional_fields_def
      List.map_filter_simps)

lemma optional_fields_keys:
  "map fst (optional_fields m) = filter (\<lambda>a. attrs m a \<noteq> None) OPTIONAL_ATTR"
  by (cases "attrs m ''device_class''"; cases "attrs m ''icon''";
      cases "attrs m ''unit_of_measurement''")
    (simp_all add: OPTIONAL_ATTR_def optional_fields_def List.map_filter_simps)

lemma optional_fields_values: "JNull \<notin> snd ` set (optional_fields m)"
  by (auto simp: optional_fields_def List.map_filter_def)

lemma mandatory_config_values: "JNull \<notin> snd ` set (mandatory_config h sensor base_topic)"
  by (simp add: mandatory_config_def)

lemma gen_ha_config_eq:
  assumes "map_of props sensor = Some m"
  shows "gen_ha_config h sensor props base_topic =
    Inr (JObject (mandatory_config h sensor base_topic @ optional_fields m))"
  using assms by (simp add: gen_ha_config_def copy_optional_eq)

text \<open>
  C8: the discovery payload of a metric is the mandatory fields followed by those
  optional attributes that the metric definition has, and by nothing else: its keys
  are the mandatory keys and then the attributes of \<open>OPTIONAL_ATTR\<close> that are present,
  an absent attribute is no key of the payload, and no value of the payload is null.
\<close>

theorem gen_ha_config_fields:
  assumes "map_of props sensor = Some m"
  shows "\<exists>fields. gen_ha_config h sensor props base_topic = Inr (JObject fields) \<and>
     fields = mandatory_config h sensor base_topic @ optional_fields m \<and>
     map fst fields = mandatory_keys @ filter (\<lambda>a. attrs m a \<noteq> None) OPTIONAL_ATTR \<and>
     JNull \<notin> snd ` set fields"
proof -
  have "JNull \<notin> snd ` set (mandatory_config h sensor base_topic @ optional_fields m)"
    using optional_fields_values [of m] mandatory_config_values [of h sensor base_topic]
    by (simp add: image_Un)
  then show ?thesis
    using gen_ha_config_eq [OF assms, of h base_topic]
    by (simp add: mandatory_config_keys optional_fields_keys)
qed

theorem gen_ha_config_fields_witness:
  "map_of [(''uptime'', \<lparr>attrs = [''device_class'' \<mapsto> ''timestamp''], call = Uptime\<rparr>)] ''uptime''
     = Some \<lparr>attrs = [''device_class'' \<mapsto> ''timestamp''], call = Uptime\<rparr> \<and>
   (\<exists>fields. gen_ha_config example_host ''uptime''
       [(''uptime'', \<lparr>attrs = [''device_class'' \<mapsto> ''timestamp''], call = Uptime\<rparr>)] ''b''
       = Inr (JObject fields) \<and>
     map fst fields = mandatory_keys @ [''device_class''])"
  using gen_ha_config_fields
    [of "[(''uptime'', \<lparr>attrs = [''device_class'' \<mapsto> ''timestamp''], call = Uptime\<rparr>)]"
      "''uptime''" "\<lparr>attrs = [''device_class'' \<mapsto> ''timestamp''], call = Uptime\<rparr>"
      example_host "''b''"]
  by (simp add: OPTIONAL_ATTR_def)

section \<open>The connect callback\<close>

lemma connect_loop_publishes:
  assumes "\<And>p m. (p, m) \<in> set es \<Longrightarrow> map_of props p = Some m"
  shows "connect_loop (map fst es) props h ha_prefix base_topic w =
    (Inr (), w\<lparr>published := published w @ map (discovery_message h ha_prefix base_topic) es\<rparr>)"
  using assms
proof (induction es arbitrary: w)
  case Nil
  then show ?case by simp
next
  case (Cons e es)
  obtain p m where e: "e = (p, m)" by (cases e)
  have lk: "map_of props p = Some m" using Cons.prems e by simp
  have rest: "\<And>p m. (p, m) \<in> set es \<Longrightarrow> map_of props p = Some m"
    using Cons.prems by simp
  show ?case
    by (simp add: e gen_ha_config_eq [OF lk] Cons.IH [OF rest] publish_def
        discovery_message_def HA_DISCOVERY_PREFIX_def)
qed

text \<open>
  C7: the connect callback publishes the retained availability message \<open>online\<close> on
  the status topic first, and then, for each entry of the registry in its order, one
  retained discovery record on the topic
  \<^verbatim>\<open><discovery_prefix>/sensor/ps2mqtt_<slugified_hostname>/<metric_key>/config\<close>,
  whose payload is the record \<open>gen_ha_config\<close> builds for the entry. It does so on every
  call, whatever the result code. The keys of a dictionary are distinct.
\<close>

theorem on_connect_publishes:
  assumes "distinct (map fst props)"
  shows "on_connect h (props, ha_prefix, base_topic) w =
    (Inr (), w\<lparr>published := published w @
       online_message base_topic # map (discovery_message h ha_prefix base_topic) props\<rparr>)"
proof -
  have "\<And>p m. (p, m) \<in> set props \<Longrightarrow> map_of props p = Some m"
    using assms by simp
  then show ?thesis
    by (simp add: on_connect_def connect_loop_publishes publish_def online_message_def
        MQTT_PS2MQTT_STATUS_def MQTT_AVAILABLE_def)
qed

theorem on_connect_publishes_witness:
  "distinct (map fst [(''uptime'', \<lparr>attrs = [''device_class'' \<mapsto> ''timestamp''], call = Uptime\<rparr>)]) \<and>
   map (\<lambda>m. (topic m, retain m)) (published (snd (on_connect example_host
     ([(''uptime'', \<lparr>attrs = [''device_class'' \<mapsto> ''timestamp''], call = Uptime\<rparr>)],
      ''homeassistant'', ''ps2mqtt/pc'') example_world))) =
   [(''ps2mqtt/pc/status'', True), (''homeassistant/sensor/ps2mqtt_pc/uptime/config'', True)]"
  using on_connect_publishes
    [of "[(''uptime'', \<lparr>attrs = [''device_class'' \<mapsto> ''timestamp''], call = Uptime\<rparr>)]"
      example_host "''homeassistant''" "''ps2mqtt/pc''" example_world]
  by (simp add: online_message_def discovery_message_def example_world_def example_host_def
      slugify_def lower_def is_upper_def is_lower_def is_digit_def allowed_def code_def)

section \<open>The registry\<close>

text \<open>
  On every host that reports sensor groups, each group has an entry in the registry
  under its name, with the sampling function of the loop body; the keys of the registry
  are the built-in keys and the groups; and the variable the sampling functions read
  holds the last group when \<open>load_properties\<close> has returned.
\<close>

lemma sensor_loop_var:
  "gs \<noteq> [] \<Longrightarrow> snd (sensor_loop gs st) = Some (last gs)"
proof (induction gs arbitrary: st)
  case Nil
  then show ?case by simp
next
  case (Cons g gs)
  obtain props var where st: "st = (props, var)" by (cases st)
  show ?case
  proof (cases "gs = []")
    case True
    then show ?thesis by (simp add: st)
  next
    case False
    with Cons.IH show ?thesis by (simp add: st)
  qed
qed

lemma sensor_loop_entry:
  "g \<in> set gs \<Longrightarrow> map_of (fst (sensor_loop gs (props, var))) g = Some temperature_metric"
proof (induction gs arbitrary: props var)
  case Nil
  then show ?case by simp
next
  case (Cons a gs)
  have keep: "map_of (fst (sensor_loop gs (ps, v))) g = Some temperature_metric"
    if "map_of ps g = Some temperature_metric" for ps v
    using that
  proof (induction gs arbitrary: ps v)
    case Nil
    then show ?case by simp
  next
    case (Cons b gs)
    then show ?case by (simp add: update_conv')
  qed
  show ?case
  proof (cases "g \<in> set gs")
    case True
    with Cons.IH show ?thesis by simp
  next
    case False
    with Cons.prems have ga: "g = a" by simp
    have "map_of (AList.update a temperature_metric props) g = Some temperature_metric"
      by (simp add: ga update_conv')
    from keep [OF this] show ?thesis by (simp add: ga)
  qed
qed

lemma update_keys_set:
  "set (map fst (AList.update k v al)) = insert k (set (map fst al))"
  by (simp only: update_keys) (simp add: insert_absorb)

lemma sensor_loop_keys:
  "set (map fst (fst (sensor_loop gs (props, var)))) = set (map fst props) \<union> set gs"
proof (induction gs arbitrary: props var)
  case Nil
  then show ?case by simp
next
  case (Cons g gs)
  have "set (map fst (fst (sensor_loop (g # gs) (props, var)))) =
      set (map fst (AList.update g temperature_metric props)) \<union> set gs"
    using Cons.IH by simp
  also have "\<dots> = insert g (set (map fst props)) \<union> set gs"
    by (simp only: update_keys_set)
  finally show ?case by simp
qed

lemma load_properties_temperature:
  assumes "sensors_temperatures h = Some temps" and "g \<in> fst ` set temps"
  shows "map_of (fst (load_properties h)) g = Some temperature_metric"
    and "snd (load_properties h) = Some (fst (last temps))"
proof -
  have ne: "map fst temps \<noteq> []" using assms(2) by auto
  show "map_of (fst (load_properties h)) g = Some temperature_metric"
    using assms by (simp add: load_properties_def sensor_loop_entry)
  show "snd (load_properties h) = Some (fst (last temps))"
    using assms(1) sensor_loop_var [OF ne, of "(static_properties, None)"] ne
    by (simp add: load_properties_def last_map)
qed

text \<open>
  C3 fails on the code. On a host with the sensor groups \<open>acpitz\<close> (30 degrees) and
  \<open>coretemp\<close> (50 degrees) the registry has an entry for each group, keyed by its name,
  but the sampling function of the entry \<open>acpitz\<close> returns 50, the temperature of
  \<open>coretemp\<close>: every lambda of the loop reads the loop variable when it is called, and
  by then the variable holds the last group.
\<close>

theorem temperature_sampler_reads_last_group: "case load_properties example_host of (props, var) \<Rightarrow>
     map fst props = map fst static_properties @ [''acpitz'', ''coretemp''] \<and>
     map_option call (map_of props ''acpitz'') = Some Temperature \<and>
     call_sampler Temperature var example_host lst = (Inr (PyFloat 50), lst)"
  by (simp add: load_properties_def example_host_def static_properties_def sensor_current_def
      temperature_metric_def)

section \<open>The scheduler loop\<close>

lemma fl_of_int:
  assumes "\<bar>n\<bar> < 2 ^ 53"
  shows "fl (of_int n) = of_int n"
proof (cases "n = 0")
  case True
  then show ?thesis by (simp add: fl_def round_sig_def)
next
  case False
  define q :: rat where "q = of_int n"
  have q: "q \<noteq> 0" "0 < \<bar>q\<bar>" using False by (simp_all add: q_def)
  have "\<bar>q\<bar> < rat_of_nat 2 powi 53"
  proof -
    have "rat_of_int \<bar>n\<bar> < rat_of_int (2 ^ 53)" using assms by (simp only: of_int_less_iff)
    then show ?thesis by (simp add: q_def)
  qed
  then have "ilog 2 \<bar>q\<bar> < 53" using q by (intro ilog_less) simp_all
  define k where "k = nat (52 - ilog 2 \<bar>q\<bar>)"
  have k: "ilog 2 \<bar>q\<bar> - (int 53 - 1) = - int k"
    using \<open>ilog 2 \<bar>q\<bar> < 53\<close> by (simp add: k_def)
  have ex: "\<bar>q\<bar> / rat_of_nat 2 powi (ilog 2 \<bar>q\<bar> - (int 53 - 1)) = of_int (\<bar>n\<bar> * 2 ^ k)"
    by (simp only: k) (simp add: power_int_minus q_def field_simps)
  have "round_sig 2 53 q = q"
    by (rule round_sig_exact [OF q(1) ex]) simp
  then show ?thesis by (simp add: fl_def q_def)
qed






section \<open>The byte counters\<close>

lemma fl_error_small:
  assumes "0 < q" "q < 2 ^ 34"
  shows "\<bar>fl q - q\<bar> \<le> 1 / 2 ^ 20"
proof -
  have q: "q \<noteq> 0" "0 < \<bar>q\<bar>" "\<bar>q\<bar> = q" using assms by simp_all
  have "\<bar>q\<bar> < rat_of_nat 2 powi 34" using assms q by simp
  then have "ilog 2 \<bar>q\<bar> < 34" using q(2) by (intro ilog_less) simp_all
  then have e: "ilog 2 \<bar>q\<bar> - (int 53 - 1) \<le> - 19" by simp
  have "\<bar>round_sig 2 53 q - q\<bar> \<le> rat_of_nat 2 powi (ilog 2 \<bar>q\<bar> - (int 53 - 1)) / 2"
    by (rule round_sig_error) (simp_all add: q)
  also have "rat_of_nat 2 powi (ilog 2 \<bar>q\<bar> - (int 53 - 1)) \<le> rat_of_nat 2 powi (- 19)"
    using e by (intro power_int_increasing) simp_all
  finally have "\<bar>round_sig 2 53 q - q\<bar> \<le> rat_of_nat 2 powi (- 19) / 2"
    by simp
  also have "rat_of_nat 2 powi (- 19) / 2 = 1 / 2 ^ 20"
    by (simp add: power_int_minus field_simps)
  finally show ?thesis by (simp only: fl_def)
qed

lemma to_millions:
  assumes "c < 2 ^ 34 * 10 ^ 6"
  shows "py_int (fdiv (of_nat c) 1000000) = int (c div 1000000)"
proof -
  define n r where "n = c div 1000000" and "r = c mod 1000000"
  have c: "c = n * 1000000 + r" and r: "r < 1000000"
    by (simp_all add: n_def r_def)
  have n: "n < 2 ^ 34" using assms by (simp add: n_def div_less_iff_less_mult)
  define q :: rat where "q = of_nat c / 1000000"
  have qeq: "q = of_nat n + of_nat r / 1000000"
    by (simp add: q_def c add_divide_distrib)
  show ?thesis
  proof (cases "r = 0")
    case True
    have b: "\<bar>int n\<bar> < 2 ^ 53"
    proof -
      have "int n < 2 ^ 34" using n by (metis of_nat_less_iff of_nat_numeral of_nat_power)
      also have "(2::int) ^ 34 < 2 ^ 53" by simp
      finally show ?thesis by simp
    qed
    have "fl (of_int (int n)) = of_int (int n)" by (rule fl_of_int [OF b])
    then have "fl q = of_nat n" using True by (simp add: qeq)
    then show ?thesis by (simp add: fdiv_def q_def [symmetric] py_int_def n_def)
  next
    case False
    then have r1: "1 \<le> r" by simp
    have lo: "rat_of_nat n + 1 / 1000000 \<le> q"
    proof -
      have "(1::rat) \<le> of_nat r" using r1 by simp
      then show ?thesis by (simp add: qeq divide_right_mono)
    qed
    have hi: "q \<le> rat_of_nat n + 1 - 1 / 1000000"
    proof -
      have "r \<le> 999999" using r by simp
      then have "rat_of_nat r \<le> 999999" by (metis of_nat_le_iff of_nat_numeral)
      then have "rat_of_nat r / 1000000 \<le> 999999 / 1000000" by (simp add: divide_right_mono)
      then show ?thesis by (simp add: qeq)
    qed
    have n0: "0 \<le> rat_of_nat n" by simp
    have qpos: "0 < q" using lo n0 by linarith
    have "rat_of_nat n + 1 \<le> 2 ^ 34"
    proof -
      have "n + 1 \<le> 2 ^ 34" using n by simp
      then have "rat_of_nat (n + 1) \<le> rat_of_nat (2 ^ 34)" by (simp only: of_nat_le_iff)
      then show ?thesis by simp
    qed
    then have q34: "q < 2 ^ 34" using hi by simp
    from fl_error_small [OF qpos q34] have err: "\<bar>fl q - q\<bar> \<le> 1 / 2 ^ 20" .
    have err': "\<bar>fl q - q\<bar> \<le> 1 / 1048576" using err by simp
    have "rat_of_nat n < fl q" using err' lo by linarith
    have "fl q < rat_of_nat n + 1" using err' hi by linarith
    note \<open>rat_of_nat n < fl q\<close> \<open>fl q < rat_of_nat n + 1\<close>
    then have "of_int (int n) \<le> fl q" "fl q < of_int (int n) + 1" by simp_all
    then have "\<lfloor>fl q\<rfloor> = int n" by (rule floor_unique)
    moreover have "0 \<le> fl q" using \<open>rat_of_nat n < fl q\<close> n0 by linarith
    ultimately show ?thesis by (simp add: fdiv_def q_def [symmetric] py_int_def n_def)
  qed
qed


lemma fdiv_round_up: "fdiv 17179869184999999 1000000 = 17179869185"
proof -
  have il: "ilog 2 (17179869184999999 / 1000000) = 34"
    by (rule ilog_eqI) simp_all
  have fr: "\<lfloor>(70368744181759995904::rat) / 15625\<rfloor> = 4503599627632639"
    by (rule floor_unique) simp_all
  show ?thesis
    by (simp add: fdiv_def fl_def round_sig_def il round_half_even_def power_int_minus Let_def fr)
qed

text \<open>
  C5, as the code has it: \<^verbatim>\<open>int(counter / 1000000)\<close> divides in floating point and
  truncates the quotient. For a counter below \<open>2 ^ 34 * 10 ^ 6\<close> (about 17 petabytes)
  the result is the integer quotient of the counter by 1,000,000.
\<close>

theorem bytes_in_millions:
  assumes "bytes_sent (net_io_counters h) < 2 ^ 34 * 10 ^ 6"
    and "bytes_recv (net_io_counters h) < 2 ^ 34 * 10 ^ 6"
  shows "call_sampler Bytes_sent var h lst =
      (Inr (PyInt (int (bytes_sent (net_io_counters h) div 1000000))), lst) \<and>
    call_sampler Bytes_recv var h lst =
      (Inr (PyInt (int (bytes_recv (net_io_counters h) div 1000000))), lst)"
  using to_millions [OF assms(1)] to_millions [OF assms(2)] by simp

theorem bytes_in_millions_witness:
  "bytes_sent (net_io_counters example_host) < 2 ^ 34 * 10 ^ 6 \<and>
   bytes_recv (net_io_counters example_host) < 2 ^ 34 * 10 ^ 6 \<and>
   call_sampler Bytes_sent None example_host Map.empty = (Inr (PyInt 7), Map.empty) \<and>
   call_sampler Bytes_recv None example_host Map.empty = (Inr (PyInt 9), Map.empty)"
proof -
  have a: "bytes_sent (net_io_counters example_host) < 2 ^ 34 * 10 ^ 6"
    and b: "bytes_recv (net_io_counters example_host) < 2 ^ 34 * 10 ^ 6"
    by (simp_all add: example_host_def)
  have "bytes_sent (net_io_counters example_host) div 1000000 = 7"
    "bytes_recv (net_io_counters example_host) div 1000000 = 9"
    by (simp_all add: example_host_def)
  with bytes_in_millions [OF a b, of None Map.empty] a b show ?thesis by simp
qed

text \<open>
  C5 as the specification states it, for every counter value, fails: for
  the counter 17179869184999999 the floating-point quotient rounds up to the integer
  17179869185, one more than the integer quotient 17179869184.
\<close>

theorem bytes_in_millions_counterexample:
  "fst (call_sampler Bytes_sent None
      (example_host\<lparr>net_io_counters := \<lparr>bytes_sent = 17179869184999999, bytes_recv = 0\<rparr>\<rparr>)
      Map.empty) = Inr (PyInt 17179869185) \<and>
   int (17179869184999999 div 1000000) = 17179869184"
  by (simp add: fdiv_round_up py_int_def)

section \<open>The rate of two consecutive samples\<close>






lemma decimal_div_example: "decimal_div 1 3 = Inr (33 / 100)"
proof -
  have il: "ilog 10 (1 / 3) = - 1"
    by (rule ilog_eqI) simp_all
  have fr: "\<lfloor>(100::rat) / 3\<rfloor> = 33"
    by (rule floor_unique) simp_all
  show ?thesis
    by (simp add: decimal_div_def prec_def round_sig_def il Let_def round_half_even_def
        power_int_minus fr)
qed



section \<open>Unique identifiers\<close>

lemma not_allowed_dash: "\<not> allowed CHR ''-''"
  by (simp add: allowed_def is_lower_def is_digit_def code_def)

lemma not_allowed_space: "\<not> allowed CHR '' ''"
  by (simp add: allowed_def is_lower_def is_digit_def code_def)

lemma lower_space: "lower CHR '' '' = CHR '' ''"
  by (simp add: lower_def is_upper_def code_def)

lemma split_words_allowed:
  "list_all allowed w \<Longrightarrow> split_words acc (w @ rest) = split_words (acc @ w) rest"
  by (induction w arbitrary: acc) simp_all

lemma split_words_append:
  "\<not> allowed c \<Longrightarrow> split_words acc (a @ c # b) = split_words acc a @ split_words [] b"
  by (induction a arbitrary: acc) simp_all

lemma split_words_good:
  "list_all allowed acc \<Longrightarrow>
   list_all (\<lambda>w. w \<noteq> [] \<and> list_all allowed w) (split_words acc s)"
  by (induction s arbitrary: acc) simp_all

lemma split_words_join:
  "list_all (\<lambda>w. w \<noteq> [] \<and> list_all allowed w) ws \<Longrightarrow> split_words [] (join ws) = ws"
proof (induction ws rule: join.induct)
  case 1
  then show ?case by simp
next
  case (2 w)
  then have "split_words [] (w @ []) = split_words ([] @ w) []"
    by (intro split_words_allowed) simp
  with 2 show ?case by simp
next
  case (3 w v vs)
  then have w: "w \<noteq> []" "list_all allowed w"
    and rest: "list_all (\<lambda>w. w \<noteq> [] \<and> list_all allowed w) (v # vs)"
    by simp_all
  have "split_words [] (w @ CHR ''-'' # join (v # vs)) =
      split_words ([] @ w) (CHR ''-'' # join (v # vs))"
    using w(2) by (rule split_words_allowed)
  also have "\<dots> = w # split_words [] (join (v # vs))"
    using w(1) not_allowed_dash by simp
  also have "\<dots> = w # v # vs"
    using "3.IH" [OF rest] by simp
  finally show ?case by simp
qed

lemma join_inject:
  assumes "list_all (\<lambda>w. w \<noteq> [] \<and> list_all allowed w) xs"
    and "list_all (\<lambda>w. w \<noteq> [] \<and> list_all allowed w) ys"
  shows "join xs = join ys \<longleftrightarrow> xs = ys"
  using split_words_join [OF assms(1)] split_words_join [OF assms(2)] by metis

lemma slugify_append:
  "slugify (a @ '' '' @ b) =
     join (split_words [] (map lower a) @ split_words [] (map lower b))"
  using split_words_append [OF not_allowed_space, of "[]" "map lower a" "map lower b"]
  by (simp add: slugify_def lower_space)

lemma unique_id_field:
  "map_of (mandatory_config h sensor base_topic) ''unique_id'' =
     Some (JString (slugify (node h @ '' '' @ sensor)))"
  by (simp add: mandatory_config_def)

lemma slugify_node_key_eq_iff:
  "slugify (a @ '' '' @ k1) = slugify (a @ '' '' @ k2) \<longleftrightarrow> slugify k1 = slugify k2"
proof -
  define W X Y where "W = split_words [] (map lower a)"
    and "X = split_words [] (map lower k1)" and "Y = split_words [] (map lower k2)"
  have good: "list_all (\<lambda>w. w \<noteq> [] \<and> list_all allowed w) W"
    "list_all (\<lambda>w. w \<noteq> [] \<and> list_all allowed w) X"
    "list_all (\<lambda>w. w \<noteq> [] \<and> list_all allowed w) Y"
    by (simp_all add: W_def X_def Y_def split_words_good)
  then have good2: "list_all (\<lambda>w. w \<noteq> [] \<and> list_all allowed w) (W @ X)"
    "list_all (\<lambda>w. w \<noteq> [] \<and> list_all allowed w) (W @ Y)"
    by simp_all
  have "slugify (a @ '' '' @ k1) = slugify (a @ '' '' @ k2) \<longleftrightarrow> join (W @ X) = join (W @ Y)"
    by (simp only: slugify_append W_def X_def Y_def)
  also have "\<dots> \<longleftrightarrow> W @ X = W @ Y" by (rule join_inject [OF good2])
  also have "\<dots> \<longleftrightarrow> X = Y" by simp
  also have "\<dots> \<longleftrightarrow> join X = join Y" by (rule join_inject [OF good(2) good(3), symmetric])
  also have "\<dots> \<longleftrightarrow> slugify k1 = slugify k2" by (simp only: slugify_def X_def Y_def)
  finally show ?thesis .
qed

lemma slugify_builtin_keys:
  "map (slugify \<circ> fst) static_properties =
     [''cpu-percent'', ''virtual-memory'', ''uptime'', ''bytes-sent'', ''bytes-recv'',
      ''upload'', ''download'']"
  by (simp add: static_properties_def slugify_def lower_def is_upper_def is_lower_def
      is_digit_def allowed_def code_def)

text \<open>
  C9, as the code has it: on one host, the unique identifiers in the discovery
  payloads of two metric keys are equal exactly when the slugs of the two keys are
  equal. So two keys get distinct identifiers if and only if they differ in more than
  the case of their letters and the characters between their words. The host name and
  the keys are plain text.
\<close>

theorem unique_id_eq_iff:
  assumes "plain (node h)" and "plain k1" and "plain k2"
  shows "map_of (mandatory_config h k1 base_topic) ''unique_id'' =
      map_of (mandatory_config h k2 base_topic) ''unique_id''
    \<longleftrightarrow> slugify k1 = slugify k2"
  by (simp only: unique_id_field slugify_node_key_eq_iff option.inject json.inject)

theorem unique_id_eq_iff_witness:
  "plain (node example_host) \<and> plain ''upload'' \<and> plain ''download'' \<and>
   map_of (mandatory_config example_host ''upload'' ''ps2mqtt/pc'') ''unique_id'' \<noteq>
   map_of (mandatory_config example_host ''download'' ''ps2mqtt/pc'') ''unique_id''"
proof -
  have p: "plain (node example_host)" "plain ''upload''" "plain ''download''"
    by (simp_all add: plain_def example_host_def code_def)
  have "slugify ''upload'' \<noteq> slugify ''download''"
    by (simp add: slugify_def lower_def is_upper_def is_lower_def is_digit_def allowed_def
        code_def)
  with unique_id_eq_iff [OF p, of "''ps2mqtt/pc''"] p show ?thesis by simp
qed

text \<open>
  C9 as the specification states it fails: the built-in key \<open>cpu_percent\<close> and
  a sensor group named \<open>cpu-percent\<close> are distinct keys of one registry, and both get
  the unique identifier \<open>pc-cpu-percent\<close> on the host \<open>pc\<close>.
\<close>

theorem unique_id_counterexample:
  "''cpu_percent'' \<noteq> ''cpu-percent'' \<and>
   map_of (mandatory_config example_host ''cpu_percent'' ''ps2mqtt/pc'') ''unique_id'' =
     Some (JString ''pc-cpu-percent'') \<and>
   map_of (mandatory_config example_host ''cpu-percent'' ''ps2mqtt/pc'') ''unique_id'' =
     Some (JString ''pc-cpu-percent'')"
  by (simp add: mandatory_config_def example_host_def slugify_def lower_def is_upper_def
      is_lower_def is_digit_def allowed_def code_def)

end
